theory Spec2Isabelle
  imports Main "HOL-Library.Word"
begin

section \<open>The MuPDF adapter layer of plato\<close>

text \<open>
  The repository holds two C files, \<^verbatim>\<open>mupdf_wrapper/mupdf_wrapper.c\<close> and
  \<^verbatim>\<open>src/wrapper/mupdf.c\<close>. Each defines the macro \<^verbatim>\<open>WRAP\<close> and instantiates it
  once per adapted library call. The macro is a program that writes a C function, so it is
  modelled as a HOL function from its arguments to the function definition it expands to,
  and the expansion is given meaning by a small interpreter for the statements that occur
  in it. The library behind \<^verbatim>\<open><mupdf/fitz.h>\<close> is not part of the repository: it is a
  parameter of the interpreter.
\<close>

subsection \<open>C values and types\<close>

type_synonym int32 = "32 word"
type_synonym addr = nat

text \<open>
  A C value as the adapters handle it: an \<^verbatim>\<open>int\<close> (32 bits, read as signed by
  \<open>sint\<close>), a pointer (address 0 is \<^verbatim>\<open>NULL\<close>), or a struct passed by value
  (\<^verbatim>\<open>fz_location\<close>, \<^verbatim>\<open>fz_matrix\<close>), kept as the bytes of its object representation
  since the adapters only copy it.
\<close>

datatype c_val = IntV int32 | PtrV addr | ObjV "8 word list"

datatype c_type = C_int | Named string | Const c_type | Ptr c_type

text \<open>
  Modelled from the spec: the error a library call signals. Its declaration is in
  \<^verbatim>\<open>fitz.h\<close>, which is not in the sources; the spec names its content as a category and
  a message.
\<close>

datatype fz_error = Fz_error int string

text \<open>
  A library call either returns a value or signals an error through the context's
  exception stack; both leave a library state behind. The library itself is a parameter:
  a function from the called name, the argument values (the context first) and the state.
\<close>

datatype 's fz_outcome = Fz_return c_val 's | Fz_throw fz_error 's

type_synonym 's fitz = "string \<Rightarrow> c_val list \<Rightarrow> 's \<Rightarrow> 's fz_outcome"

subsection \<open>The statements of an expanded adapter\<close>

datatype c_expr = Call string "string list" | Var string | NULL | Num int

datatype c_stmt =
    Decl c_type string
  | Assign string c_expr
  | Fz_try c_stmt c_stmt
  | Return c_expr
  | Seq c_stmt c_stmt

record c_function =
  fn_ret_type :: c_type
  fn_name :: string
  fn_params :: "(c_type \<times> string) list"
  fn_body :: c_stmt

text \<open>
  What can go wrong in C without being an error of the library: a name that is not
  declared, a local read before it was assigned, a local declared twice, a call with the
  wrong number of arguments, a non-void function that ends without \<^verbatim>\<open>return\<close>.
\<close>

datatype c_fault =
    Undeclared string
  | Uninitialized string
  | Redeclared string
  | Arity_mismatch
  | Missing_return

datatype slot = Uninit | Init c_val

type_synonym locals = "string \<Rightarrow> slot option"

datatype 's eval_result = Value c_val 's | Raised fz_error 's | Wrong c_fault

datatype 's flow =
    Next locals 's
  | Returns c_val 's
  | Throws fz_error locals 's
  | Stuck c_fault

datatype 's call_result = Done c_val 's | Escaped fz_error 's | Fault c_fault

fun read_var :: "locals \<Rightarrow> string \<Rightarrow> c_fault + c_val" where
  "read_var \<sigma> x =
     (case \<sigma> x of
        None \<Rightarrow> Inl (Undeclared x)
      | Some Uninit \<Rightarrow> Inl (Uninitialized x)
      | Some (Init v) \<Rightarrow> Inr v)"

fun read_vars :: "locals \<Rightarrow> string list \<Rightarrow> c_fault + c_val list" where
  "read_vars \<sigma> [] = Inr []"
| "read_vars \<sigma> (x # xs) =
     (case read_var \<sigma> x of
        Inl c \<Rightarrow> Inl c
      | Inr v \<Rightarrow> (case read_vars \<sigma> xs of Inl c \<Rightarrow> Inl c | Inr vs \<Rightarrow> Inr (v # vs)))"

fun eval :: "'s fitz \<Rightarrow> locals \<Rightarrow> c_expr \<Rightarrow> 's \<Rightarrow> 's eval_result" where
  "eval L \<sigma> NULL s = Value (PtrV 0) s"
| "eval L \<sigma> (Num n) s = Value (IntV (word_of_int n)) s"
| "eval L \<sigma> (Var x) s = (case read_var \<sigma> x of Inl c \<Rightarrow> Wrong c | Inr v \<Rightarrow> Value v s)"
| "eval L \<sigma> (Call g xs) s =
     (case read_vars \<sigma> xs of
        Inl c \<Rightarrow> Wrong c
      | Inr vs \<Rightarrow>
          (case L g vs s of
             Fz_return v s' \<Rightarrow> Value v s'
           | Fz_throw e s' \<Rightarrow> Raised e s'))"

text \<open>
  Modelled from the spec: \<^verbatim>\<open>fz_try\<close> and \<^verbatim>\<open>fz_catch\<close> are macros of \<^verbatim>\<open>fitz.h\<close>,
  which is not in the sources. The spec describes them as a guarded execution region, a
  scope in which a failure signal raised by the library is caught locally rather than
  propagating to the caller: the handler runs exactly when the guarded statement raised,
  and it is not handed the error.
\<close>

fun exec :: "'s fitz \<Rightarrow> c_stmt \<Rightarrow> locals \<Rightarrow> 's \<Rightarrow> 's flow" where
  "exec L (Decl t x) \<sigma> s =
     (if \<sigma> x \<noteq> None then Stuck (Redeclared x) else Next (\<sigma>(x \<mapsto> Uninit)) s)"
| "exec L (Assign x e) \<sigma> s =
     (if \<sigma> x = None then Stuck (Undeclared x)
      else case eval L \<sigma> e s of
             Value v s' \<Rightarrow> Next (\<sigma>(x \<mapsto> Init v)) s'
           | Raised err s' \<Rightarrow> Throws err \<sigma> s'
           | Wrong c \<Rightarrow> Stuck c)"
| "exec L (Fz_try body handler) \<sigma> s =
     (case exec L body \<sigma> s of
        Throws err \<sigma>' s' \<Rightarrow> exec L handler \<sigma>' s'
      | Next \<sigma>' s' \<Rightarrow> Next \<sigma>' s'
      | Returns v s' \<Rightarrow> Returns v s'
      | Stuck c \<Rightarrow> Stuck c)"
| "exec L (Return e) \<sigma> s =
     (case eval L \<sigma> e s of
        Value v s' \<Rightarrow> Returns v s'
      | Raised err s' \<Rightarrow> Throws err \<sigma> s'
      | Wrong c \<Rightarrow> Stuck c)"
| "exec L (Seq a b) \<sigma> s =
     (case exec L a \<sigma> s of
        Next \<sigma>' s' \<Rightarrow> exec L b \<sigma>' s'
      | Returns v s' \<Rightarrow> Returns v s'
      | Throws err \<sigma>' s' \<Rightarrow> Throws err \<sigma>' s'
      | Stuck c \<Rightarrow> Stuck c)"

text \<open>
  Calling a function: the arguments are bound to the parameters by position, the body
  runs, and the call ends with the returned value, with an error that escaped the body,
  or with a fault.
\<close>

definition bind_params :: "(c_type \<times> string) list \<Rightarrow> c_val list \<Rightarrow> locals" where
  "bind_params ps args = map_of (zip (map snd ps) (map Init args))"

definition call_function :: "'s fitz \<Rightarrow> c_function \<Rightarrow> c_val list \<Rightarrow> 's \<Rightarrow> 's call_result" where
  "call_function L f args s =
     (if length args \<noteq> length (fn_params f) then Fault Arity_mismatch
      else case exec L (fn_body f) (bind_params (fn_params f) args) s of
             Next \<sigma> s' \<Rightarrow> Fault Missing_return
           | Returns v s' \<Rightarrow> Done v s'
           | Throws e \<sigma> s' \<Rightarrow> Escaped e s'
           | Stuck c \<Rightarrow> Fault c)"

subsection \<open>The macro and its instances\<close>

text \<open>
  \<^verbatim>\<open>
  #define WRAP(name, ret_type, failure_val, call, ...) \
      ret_type mp_##name(fz_context *ctx, ##__VA_ARGS__) { \
          ret_type ret; \
          fz_try (ctx) { ret = call; } \
          fz_catch (ctx) { ret = failure_val; } \
          return ret; \
      }
  \<close>
\<close>

type_synonym wrap_args = "string \<times> c_type \<times> c_expr \<times> c_expr \<times> (c_type \<times> string) list"

fun WRAP :: "wrap_args \<Rightarrow> c_function" where
  "WRAP (name, ret_type, failure_val, call, va_args) =
     \<lparr> fn_ret_type = ret_type,
       fn_name = ''mp_'' @ name,
       fn_params = (Ptr (Named ''fz_context''), ''ctx'') # va_args,
       fn_body =
         Seq (Decl ret_type ''ret'')
          (Seq (Fz_try (Assign ''ret'' call) (Assign ''ret'' failure_val))
               (Return (Var ''ret''))) \<rparr>"

text \<open>
  The nine instances of \<^verbatim>\<open>mupdf_wrapper/mupdf_wrapper.c\<close>, lines 11 to 19, each named
  as the C function it defines.
\<close>

definition mp_open_document :: c_function where
  "mp_open_document =
     WRAP (''open_document'', Ptr (Named ''fz_document''), NULL,
       Call ''fz_open_document'' [''ctx'', ''path''],
       [(Ptr (Named ''char''), ''path'')])"

definition mp_open_document_with_stream :: c_function where
  "mp_open_document_with_stream =
     WRAP (''open_document_with_stream'', Ptr (Named ''fz_document''), NULL,
       Call ''fz_open_document_with_stream'' [''ctx'', ''kind'', ''stream''],
       [(Ptr (Const (Named ''char'')), ''kind''), (Ptr (Named ''fz_stream''), ''stream'')])"

definition mp_load_page :: c_function where
  "mp_load_page =
     WRAP (''load_page'', Ptr (Named ''fz_page''), NULL,
       Call ''fz_load_page'' [''ctx'', ''doc'', ''pageno''],
       [(Ptr (Named ''fz_document''), ''doc''), (C_int, ''pageno'')])"

definition mp_load_outline :: c_function where
  "mp_load_outline =
     WRAP (''load_outline'', Ptr (Named ''fz_outline''), NULL,
       Call ''fz_load_outline'' [''ctx'', ''doc''],
       [(Ptr (Named ''fz_document''), ''doc'')])"

definition mp_load_links :: c_function where
  "mp_load_links =
     WRAP (''load_links'', Ptr (Named ''fz_link''), NULL,
       Call ''fz_load_links'' [''ctx'', ''page''],
       [(Ptr (Named ''fz_page''), ''page'')])"

definition mp_count_pages :: c_function where
  "mp_count_pages =
     WRAP (''count_pages'', C_int, Num (- 1),
       Call ''fz_count_pages'' [''ctx'', ''doc''],
       [(Ptr (Named ''fz_document''), ''doc'')])"

definition mp_page_number_from_location :: c_function where
  "mp_page_number_from_location =
     WRAP (''page_number_from_location'', C_int, Num (- 1),
       Call ''fz_page_number_from_location'' [''ctx'', ''doc'', ''loc''],
       [(Ptr (Named ''fz_document''), ''doc''), (Named ''fz_location'', ''loc'')])"

definition mp_new_pixmap_from_page :: c_function where
  "mp_new_pixmap_from_page =
     WRAP (''new_pixmap_from_page'', Ptr (Named ''fz_pixmap''), NULL,
       Call ''fz_new_pixmap_from_page'' [''ctx'', ''page'', ''mat'', ''cs'', ''alpha''],
       [(Ptr (Named ''fz_page''), ''page''), (Named ''fz_matrix'', ''mat''),
        (Ptr (Named ''fz_colorspace''), ''cs''), (C_int, ''alpha'')])"

definition mp_new_stext_page_from_page :: c_function where
  "mp_new_stext_page_from_page =
     WRAP (''new_stext_page_from_page'', Ptr (Named ''fz_stext_page''), NULL,
       Call ''fz_new_stext_page_from_page'' [''ctx'', ''page'', ''options''],
       [(Ptr (Named ''fz_page''), ''page''), (Ptr (Named ''fz_stext_options''), ''options'')])"

definition mupdf_wrapper_c :: "c_function list" where
  "mupdf_wrapper_c =
     [mp_open_document, mp_open_document_with_stream, mp_load_page, mp_load_outline,
      mp_load_links, mp_count_pages, mp_page_number_from_location, mp_new_pixmap_from_page,
      mp_new_stext_page_from_page]"

text \<open>
  \<^verbatim>\<open>src/wrapper/mupdf.c\<close> defines the macro again, with the same text, and instantiates
  it four times (lines 11 to 14). Its functions carry the suffix \<open>_src\<close> here, since
  they have the names of four functions of the other file.
\<close>

fun WRAP_src :: "wrap_args \<Rightarrow> c_function" where
  "WRAP_src (name, ret_type, failure_val, call, va_args) =
     \<lparr> fn_ret_type = ret_type,
       fn_name = ''mp_'' @ name,
       fn_params = (Ptr (Named ''fz_context''), ''ctx'') # va_args,
       fn_body =
         Seq (Decl ret_type ''ret'')
          (Seq (Fz_try (Assign ''ret'' call) (Assign ''ret'' failure_val))
               (Return (Var ''ret''))) \<rparr>"

definition mp_open_document_src :: c_function where
  "mp_open_document_src =
     WRAP_src (''open_document'', Ptr (Named ''fz_document''), NULL,
       Call ''fz_open_document'' [''ctx'', ''path''],
       [(Ptr (Named ''char''), ''path'')])"

definition mp_count_pages_src :: c_function where
  "mp_count_pages_src =
     WRAP_src (''count_pages'', C_int, Num (- 1),
       Call ''fz_count_pages'' [''ctx'', ''doc''],
       [(Ptr (Named ''fz_document''), ''doc'')])"

definition mp_load_outline_src :: c_function where
  "mp_load_outline_src =
     WRAP_src (''load_outline'', Ptr (Named ''fz_outline''), NULL,
       Call ''fz_load_outline'' [''ctx'', ''doc''],
       [(Ptr (Named ''fz_document''), ''doc'')])"

definition mp_load_page_src :: c_function where
  "mp_load_page_src =
     WRAP_src (''load_page'', Ptr (Named ''fz_page''), NULL,
       Call ''fz_load_page'' [''ctx'', ''doc'', ''pageno''],
       [(Ptr (Named ''fz_document''), ''doc''), (C_int, ''pageno'')])"

definition mupdf_c :: "c_function list" where
  "mupdf_c = [mp_open_document_src, mp_count_pages_src, mp_load_outline_src, mp_load_page_src]"

subsection \<open>Observing a call\<close>

text \<open>The state a library call leaves, and its result without the state.\<close>

fun fz_state :: "'s fz_outcome \<Rightarrow> 's" where
  "fz_state (Fz_return v s) = s"
| "fz_state (Fz_throw e s) = s"

fun fz_result :: "'s fz_outcome \<Rightarrow> fz_error + c_val" where
  "fz_result (Fz_return v s) = Inr v"
| "fz_result (Fz_throw e s) = Inl e"

text \<open>
  A library that also keeps a log: every call it receives is appended to the log, with
  the name called and the argument values received. Running an adapter on the logging
  library shows which calls it makes and with which arguments.
\<close>

definition logged :: "'s fitz \<Rightarrow> ('s \<times> (string \<times> c_val list) list) fitz" where
  "logged L g args =
     (\<lambda>(s, log).
        case L g args s of
          Fz_return v s' \<Rightarrow> Fz_return v (s', log @ [(g, args)])
        | Fz_throw e s' \<Rightarrow> Fz_throw e (s', log @ [(g, args)]))"

text \<open>
  The sentinel the spec gives a return type: the null handle for a handle, \<open>-1\<close> for an
  integer, and none for any other type.
\<close>

fun spec_sentinel :: "c_type \<Rightarrow> c_val option" where
  "spec_sentinel C_int = Some (IntV (- 1))"
| "spec_sentinel (Ptr t) = Some (PtrV 0)"
| "spec_sentinel (Named n) = None"
| "spec_sentinel (Const t) = None"

subsection \<open>A sample library\<close>

text \<open>
  A library for running the adapters on concrete inputs. Its state is the table of open
  documents, each handle with its number of pages. \<^verbatim>\<open>fz_count_pages\<close> answers the number
  of pages of the document, and 0 for a handle that is not in the table (the null handle
  is never in it); \<^verbatim>\<open>fz_load_page\<close> signals an error for a handle that is not in the
  table and for a page number out of range; every other call signals an error.
\<close>

type_synonym sample_state = "(addr \<times> nat) list"

fun sample_fitz :: "sample_state fitz" where
  "sample_fitz g args docs =
     (if g = ''fz_count_pages'' then
        (case args of
           [ctx, PtrV d] \<Rightarrow>
             (case map_of docs d of
                Some n \<Rightarrow> Fz_return (IntV (of_nat n)) docs
              | None \<Rightarrow> Fz_return (IntV 0) docs)
         | _ \<Rightarrow> Fz_throw (Fz_error 1 ''bad call'') docs)
      else if g = ''fz_load_page'' then
        (case args of
           [ctx, PtrV d, IntV i] \<Rightarrow>
             (case map_of docs d of
                None \<Rightarrow> Fz_throw (Fz_error 2 ''no document'') docs
              | Some n \<Rightarrow>
                  if unat i < n then Fz_return (PtrV (d + 1 + unat i)) docs
                  else Fz_throw (Fz_error 3 ''invalid page number'') docs)
         | _ \<Rightarrow> Fz_throw (Fz_error 1 ''bad call'') docs)
      else Fz_throw (Fz_error 1 ''bad call'') docs)"

subsection \<open>What the spec says of an adapter\<close>

text \<open>
  The library function an adapter stands for: the spec gives an adapter the name of the
  underlying call under a prefix of its own, so \<^verbatim>\<open>mp_\<close>\<open>X\<close> stands for \<^verbatim>\<open>fz_\<close>\<open>X\<close>.
\<close>

definition underlying_call :: "c_function \<Rightarrow> string" where
  "underlying_call f = ''fz_'' @ drop 3 (fn_name f)"

text \<open>The two kinds of result the spec allows, and the kind of a C return type.\<close>

datatype result_kind = Handle | Integer

fun kind_of :: "c_type \<Rightarrow> result_kind option" where
  "kind_of C_int = Some Integer"
| "kind_of (Ptr t) = Some Handle"
| "kind_of (Named n) = None"
| "kind_of (Const t) = None"

text \<open>
  The table of section 4.1 of the spec, in its order: operation, kind of result,
  sentinel. A row of the spec names its operation in prose; it is written here as the
  library call that performs it: open a document from a path, open a document from a
  stream with a declared format kind, load a page by index, load the outline, load the
  links of a page, count the pages, resolve a page number from a location, render a page
  to a pixel buffer, extract the structured text of a page.
\<close>

definition spec_operations :: "(string \<times> result_kind \<times> c_val) list" where
  "spec_operations =
     [(''fz_open_document'', Handle, PtrV 0),
      (''fz_open_document_with_stream'', Handle, PtrV 0),
      (''fz_load_page'', Handle, PtrV 0),
      (''fz_load_outline'', Handle, PtrV 0),
      (''fz_load_links'', Handle, PtrV 0),
      (''fz_count_pages'', Integer, IntV (- 1)),
      (''fz_page_number_from_location'', Integer, IntV (- 1)),
      (''fz_new_pixmap_from_page'', Handle, PtrV 0),
      (''fz_new_stext_page_from_page'', Handle, PtrV 0)]"

text \<open>The number of \<^verbatim>\<open>return\<close> statements of a statement.\<close>

fun count_returns :: "c_stmt \<Rightarrow> nat" where
  "count_returns (Decl t x) = 0"
| "count_returns (Assign x e) = 0"
| "count_returns (Fz_try body handler) = count_returns body + count_returns handler"
| "count_returns (Return e) = 1"
| "count_returns (Seq a b) = count_returns a + count_returns b"

text \<open>
  A value of a C type: an \<^verbatim>\<open>int\<close> value for \<^verbatim>\<open>int\<close>, a pointer value for a pointer type,
  an object for a named struct type; \<^verbatim>\<open>const\<close> changes nothing.
\<close>

fun of_type :: "c_val \<Rightarrow> c_type \<Rightarrow> bool" where
  "of_type v (Const t) = of_type v t"
| "of_type (IntV i) C_int = True"
| "of_type (PtrV p) (Ptr t) = True"
| "of_type (ObjV bs) (Named n) = True"
| "of_type v t = False"

text \<open>
  What every instance of the two files has in common: the guarded call is the library
  function of the same stem, its arguments are the parameters of the adapter in their
  order, no parameter is named twice or named \<^verbatim>\<open>ret\<close>, and the failure value is
  \<^verbatim>\<open>NULL\<close> for a pointer to a named type and \<^verbatim>\<open>-1\<close> for \<^verbatim>\<open>int\<close>.
\<close>

fun wrap_ok :: "wrap_args \<Rightarrow> bool" where
  "wrap_ok (name, ret_type, failure_val, call, va_args) =
     (call = Call (''fz_'' @ name) (''ctx'' # map snd va_args) \<and>
      distinct (''ctx'' # map snd va_args) \<and> ''ret'' \<notin> set (''ctx'' # map snd va_args) \<and>
      (failure_val = NULL \<and> (case ret_type of Ptr (Named t) \<Rightarrow> True | _ \<Rightarrow> False) \<or>
       failure_val = Num (- 1) \<and> ret_type = C_int))"

section \<open>Properties\<close>

subsection \<open>The meaning of an expansion\<close>

lemma WRAP_src_eq: "WRAP_src d = WRAP d"
  by (cases d) simp

lemma read_vars_nth:
  "length xs = length vs \<Longrightarrow> (\<forall>i < length xs. \<sigma> (xs ! i) = Some (Init (vs ! i)))
   \<Longrightarrow> read_vars \<sigma> xs = Inr vs"
proof (induction xs vs rule: list_induct2)
  case Nil
  then show ?case by simp
next
  case (Cons x xs v vs)
  have "\<sigma> x = Some (Init v)" using Cons.prems by force
  moreover have "read_vars \<sigma> xs = Inr vs"
    using Cons.IH Cons.prems by fastforce
  ultimately show ?case by simp
qed

lemma read_vars_bound:
  assumes "distinct (map snd ps)" "length args = length ps" "x \<notin> snd ` set ps"
  shows "read_vars ((bind_params ps args)(x \<mapsto> sl)) (map snd ps) = Inr args"
proof (rule read_vars_nth)
  show "length (map snd ps) = length args" using assms by simp
  show "\<forall>i<length (map snd ps). ((bind_params ps args)(x \<mapsto> sl)) (map snd ps ! i) = Some (Init (args ! i))"
  proof (intro allI impI)
    fix i assume i: "i < length (map snd ps)"
    then have "map snd ps ! i \<noteq> x" using assms(3) by (metis length_map nth_map nth_mem image_eqI)
    moreover have "map_of (zip (map snd ps) (map Init args)) (map snd ps ! i) = Some (map Init args ! i)"
      using assms i by (intro map_of_zip_nth) simp_all
    ultimately show "((bind_params ps args)(x \<mapsto> sl)) (map snd ps ! i) = Some (Init (args ! i))"
      using i assms by (simp add: bind_params_def)
  qed
qed

lemma call_WRAP:
  assumes "distinct (map snd ps)" "''ret'' \<notin> snd ` set ps" "length args = length ps"
    and "ps = (Ptr (Named ''fz_context''), ''ctx'') # va"
    and "fv = NULL \<and> c = PtrV 0 \<or> fv = Num n \<and> c = IntV (word_of_int n)"
  shows "call_function L (WRAP (name, rt, fv, Call g (map snd ps), va)) args s =
     (case L g args s of Fz_return v s' \<Rightarrow> Done v s' | Fz_throw e s' \<Rightarrow> Done c s')"
proof -
  have "map fst (zip (map snd ps) (map Init args)) = map snd ps"
    using assms(3) by (simp add: map_fst_zip)
  then have "fst ` set (zip (map snd ps) (map Init args)) = snd ` set ps"
    by (metis set_map)
  then have none: "bind_params ps args ''ret'' = None"
    using assms(2) by (simp add: bind_params_def map_of_eq_None_iff)
  have rd: "read_vars ((bind_params ps args)(''ret'' \<mapsto> Uninit)) (map snd ps) = Inr args"
    using assms(1,3,2) by (rule read_vars_bound)
  show ?thesis
    using assms(3,5) none rd unfolding assms(4)[symmetric]
    by (auto simp: call_function_def assms(4)[symmetric] split: fz_outcome.splits)
qed


lemmas instance_defs =
  mp_open_document_def mp_open_document_with_stream_def mp_load_page_def mp_load_outline_def
  mp_load_links_def mp_count_pages_def mp_page_number_from_location_def
  mp_new_pixmap_from_page_def mp_new_stext_page_from_page_def
  mp_open_document_src_def mp_count_pages_src_def mp_load_outline_src_def mp_load_page_src_def

lemma WRAP_inject: "WRAP d = WRAP d' \<longleftrightarrow> d = d'"
  by (cases d, cases d') auto

lemma instances_ok:
  assumes "f \<in> set mupdf_wrapper_c \<union> set mupdf_c"
  shows "\<exists>d. f = WRAP d \<and> wrap_ok d"
  using assms
  unfolding mupdf_wrapper_c_def mupdf_c_def instance_defs WRAP_src_eq
  by (elim UnE; simp del: WRAP.simps add: WRAP_inject; elim disjE; simp del: WRAP.simps add: WRAP_inject)

lemma instance_shape:
  assumes "f \<in> set mupdf_wrapper_c \<union> set mupdf_c"
    and "f = WRAP (name, ret_type, failure_val, Call g xs, va_args)"
  shows "xs = map snd (fn_params f) \<and> distinct xs \<and> ''ret'' \<notin> set xs \<and>
         fn_params f = (Ptr (Named ''fz_context''), ''ctx'') # va_args \<and> g = ''fz_'' @ name \<and>
         (failure_val = NULL \<and> (\<exists>t. ret_type = Ptr (Named t)) \<or>
          failure_val = Num (- 1) \<and> ret_type = C_int)"
proof -
  from instances_ok[OF assms(1)] obtain d where "f = WRAP d" "wrap_ok d" by blast
  with assms(2) have "wrap_ok (name, ret_type, failure_val, Call g xs, va_args)"
    by (simp only: WRAP_inject)
  then show ?thesis
    unfolding assms(2) by (auto split: c_type.splits)
qed

text \<open>Every function of the two files is an expansion of this form.\<close>

lemma instance_expands:
  assumes "f \<in> set mupdf_wrapper_c \<union> set mupdf_c"
  shows "\<exists>name ret_type failure_val g xs va_args.
           f = WRAP (name, ret_type, failure_val, Call g xs, va_args)"
proof -
  from instances_ok[OF assms] obtain d where d: "f = WRAP d" "wrap_ok d" by blast
  obtain name ret_type failure_val call va_args
    where "d = (name, ret_type, failure_val, call, va_args)"
    by (cases d)
  with d show ?thesis by auto
qed

lemma instance_call:
  assumes "f \<in> set mupdf_wrapper_c \<union> set mupdf_c"
    and "f = WRAP (name, ret_type, failure_val, Call g xs, va_args)"
    and "length args = length (fn_params f)"
  shows "\<exists>c. spec_sentinel ret_type = Some c \<and>
           call_function L f args s =
             (case L g args s of Fz_return v s' \<Rightarrow> Done v s' | Fz_throw e s' \<Rightarrow> Done c s')"
proof -
  let ?ps = "fn_params f"
  note sh = instance_shape[OF assms(1,2)]
  have xs: "xs = map snd ?ps" using sh by (rule conjunct1)
  have d: "distinct (map snd ?ps)" using sh xs by blast
  have "''ret'' \<notin> set (map snd ?ps)" using sh xs by blast
  then have r: "''ret'' \<notin> snd ` set ?ps" by simp
  have ps: "?ps = (Ptr (Named ''fz_context''), ''ctx'') # va_args" using sh by blast
  have fv: "failure_val = NULL \<and> (\<exists>t. ret_type = Ptr (Named t)) \<or>
          failure_val = Num (- 1) \<and> ret_type = C_int" using sh by blast
  from fv show ?thesis
  proof
    assume a: "failure_val = NULL \<and> (\<exists>t. ret_type = Ptr (Named t))"
    then have "call_function L (WRAP (name, ret_type, failure_val, Call g (map snd ?ps), va_args)) args s =
       (case L g args s of Fz_return v s' \<Rightarrow> Done v s' | Fz_throw e s' \<Rightarrow> Done (PtrV 0) s')"
      using d r assms(3) ps by (intro call_WRAP) auto
    with a xs assms(2) show ?thesis by auto
  next
    assume a: "failure_val = Num (- 1) \<and> ret_type = C_int"
    then have "call_function L (WRAP (name, ret_type, failure_val, Call g (map snd ?ps), va_args)) args s =
       (case L g args s of Fz_return v s' \<Rightarrow> Done v s' | Fz_throw e s' \<Rightarrow> Done (IntV (- 1)) s')"
      using d r assms(3) ps by (intro call_WRAP[where n = "- 1"]) auto
    with a xs assms(2) show ?thesis by auto
  qed
qed

text \<open>The same, with the wrapped call named from the adapter itself.\<close>

lemma instance_call_direct:
  assumes "f \<in> set mupdf_wrapper_c \<union> set mupdf_c"
    and "length args = length (fn_params f)"
  shows "\<exists>c. spec_sentinel (fn_ret_type f) = Some c \<and>
           call_function L f args s =
             (case L (underlying_call f) args s of
                Fz_return v s' \<Rightarrow> Done v s'
              | Fz_throw e s' \<Rightarrow> Done c s')"
proof -
  from instance_expands[OF assms(1)] obtain name ret_type failure_val g xs va_args
    where f: "f = WRAP (name, ret_type, failure_val, Call g xs, va_args)" by blast
  have "g = ''fz_'' @ name" using instance_shape[OF assms(1) f] by blast
  moreover have "fn_name f = ''mp_'' @ name" "fn_ret_type f = ret_type"
    unfolding f by simp_all
  ultimately have "underlying_call f = g" "fn_ret_type f = ret_type"
    by (simp_all add: underlying_call_def)
  with instance_call[OF assms(1) f assms(2), of L s] show ?thesis by simp
qed

text \<open>
  The guarded assignment, run after the declaration of \<^verbatim>\<open>ret\<close>: it stores the result
  of the call, or raises and leaves \<^verbatim>\<open>ret\<close> as it was.
\<close>

lemma wrap_paths:
  assumes "distinct (map snd ps)" "''ret'' \<notin> snd ` set ps" "length args = length ps"
  shows "bind_params ps args ''ret'' = None"
    and "exec L (Assign ''ret'' (Call g (map snd ps))) ((bind_params ps args)(''ret'' \<mapsto> Uninit)) s =
      (case L g args s of
         Fz_return v s' \<Rightarrow> Next ((bind_params ps args)(''ret'' \<mapsto> Init v)) s'
       | Fz_throw e s' \<Rightarrow> Throws e ((bind_params ps args)(''ret'' \<mapsto> Uninit)) s')"
proof -
  have "map fst (zip (map snd ps) (map Init args)) = map snd ps"
    using assms(3) by (simp add: map_fst_zip)
  then have "fst ` set (zip (map snd ps) (map Init args)) = snd ` set ps"
    by (metis set_map)
  then show "bind_params ps args ''ret'' = None"
    using assms(2) by (simp add: bind_params_def map_of_eq_None_iff)
  have rd: "read_vars ((bind_params ps args)(''ret'' \<mapsto> Uninit)) (map snd ps) = Inr args"
    using assms(1,3,2) by (rule read_vars_bound)
  show "exec L (Assign ''ret'' (Call g (map snd ps))) ((bind_params ps args)(''ret'' \<mapsto> Uninit)) s =
      (case L g args s of
         Fz_return v s' \<Rightarrow> Next ((bind_params ps args)(''ret'' \<mapsto> Init v)) s'
       | Fz_throw e s' \<Rightarrow> Throws e ((bind_params ps args)(''ret'' \<mapsto> Uninit)) s')"
    using rd by (simp split: fz_outcome.splits)
qed

subsection \<open>Pass-through and the sentinel\<close>

text \<open>
  C1. For every adapted operation of either file: when the underlying library call
  completes normally on the given arguments, the adapter returns exactly the value the call
  produced, and leaves the state the call left.
\<close>

theorem pass_through:
  assumes "f \<in> set mupdf_wrapper_c \<union> set mupdf_c"
    and "length args = length (fn_params f)"
    and "L (underlying_call f) args s = Fz_return v s'"
  shows "call_function L f args s = Done v s'"
  using instance_call_direct[OF assms(1,2), of L s] assms(3) by auto

text \<open>
  The theorem at \<^verbatim>\<open>mp_count_pages\<close> of \<^verbatim>\<open>src/wrapper/mupdf.c\<close>, on a document of three
  pages, and at \<^verbatim>\<open>mp_load_page\<close> of \<^verbatim>\<open>mupdf_wrapper/mupdf_wrapper.c\<close>, on its third page.
\<close>

theorem pass_through_witness:
  "underlying_call mp_count_pages_src = ''fz_count_pages'' \<and>
   sample_fitz ''fz_count_pages'' [PtrV 1, PtrV 16] [(16, 3)] = Fz_return (IntV 3) [(16, 3)] \<and>
   call_function sample_fitz mp_count_pages_src [PtrV 1, PtrV 16] [(16, 3)] = Done (IntV 3) [(16, 3)] \<and>
   underlying_call mp_load_page = ''fz_load_page'' \<and>
   sample_fitz ''fz_load_page'' [PtrV 1, PtrV 16, IntV 2] [(16, 3)] = Fz_return (PtrV 19) [(16, 3)] \<and>
   call_function sample_fitz mp_load_page [PtrV 1, PtrV 16, IntV 2] [(16, 3)] = Done (PtrV 19) [(16, 3)]"
proof -
  have a: "mp_count_pages_src \<in> set mupdf_wrapper_c \<union> set mupdf_c"
    by (simp add: mupdf_c_def)
  have b: "length [PtrV 1, PtrV 16] = length (fn_params mp_count_pages_src)"
    by (simp add: mp_count_pages_src_def)
  have u: "underlying_call mp_count_pages_src = ''fz_count_pages''"
    by (simp add: underlying_call_def mp_count_pages_src_def)
  have c: "sample_fitz (underlying_call mp_count_pages_src) [PtrV 1, PtrV 16] [(16, 3)] =
             Fz_return (IntV 3) [(16, 3)]"
    unfolding u by simp
  have a': "mp_load_page \<in> set mupdf_wrapper_c \<union> set mupdf_c"
    by (simp add: mupdf_wrapper_c_def)
  have b': "length [PtrV 1, PtrV 16, IntV 2] = length (fn_params mp_load_page)"
    by (simp add: mp_load_page_def)
  have u': "underlying_call mp_load_page = ''fz_load_page''"
    by (simp add: underlying_call_def mp_load_page_def)
  have c': "sample_fitz (underlying_call mp_load_page) [PtrV 1, PtrV 16, IntV 2] [(16, 3)] =
             Fz_return (PtrV 19) [(16, 3)]"
    unfolding u' by simp
  from pass_through[where L = sample_fitz, OF a b c]
    pass_through[where L = sample_fitz, OF a' b' c'] u u' c c'
  show ?thesis by simp
qed



text \<open>
  C4. For every adapted operation: two failures of the underlying call with different
  causes, on the same arguments, give the same returned value, the sentinel of the return
  type. The value says nothing about the cause.
\<close>

theorem error_detail_discarded:
  assumes "f \<in> set mupdf_wrapper_c \<union> set mupdf_c"
    and "f = WRAP (name, ret_type, failure_val, Call g xs, va_args)"
    and "length args = length (fn_params f)"
    and "L g args s1 = Fz_throw e1 t1"
    and "L g args s2 = Fz_throw e2 t2"
  shows "\<exists>c. spec_sentinel ret_type = Some c \<and>
           call_function L f args s1 = Done c t1 \<and> call_function L f args s2 = Done c t2"
  using instance_call[OF assms(1-3), of L s1] instance_call[OF assms(1-3), of L s2] assms(4,5)
  by auto

text \<open>
  The theorem at \<^verbatim>\<open>mp_load_page\<close> of \<^verbatim>\<open>src/wrapper/mupdf.c\<close>: an unknown document and a
  page number out of range are two different errors of the library and one value of the
  adapter.
\<close>

theorem error_detail_discarded_witness:
  "mp_load_page_src \<in> set mupdf_wrapper_c \<union> set mupdf_c \<and>
   sample_fitz ''fz_load_page'' [PtrV 1, PtrV 16, IntV 7] [] =
     Fz_throw (Fz_error 2 ''no document'') [] \<and>
   sample_fitz ''fz_load_page'' [PtrV 1, PtrV 16, IntV 7] [(16, 3)] =
     Fz_throw (Fz_error 3 ''invalid page number'') [(16, 3)] \<and>
   Fz_error 2 ''no document'' \<noteq> Fz_error 3 ''invalid page number'' \<and>
   call_function sample_fitz mp_load_page_src [PtrV 1, PtrV 16, IntV 7] [] = Done (PtrV 0) [] \<and>
   call_function sample_fitz mp_load_page_src [PtrV 1, PtrV 16, IntV 7] [(16, 3)] =
     Done (PtrV 0) [(16, 3)]"
  using error_detail_discarded[where f = mp_load_page_src and name = "''load_page''"
      and ret_type = "Ptr (Named ''fz_page'')" and failure_val = NULL and g = "''fz_load_page''"
      and xs = "[''ctx'', ''doc'', ''pageno'']"
      and va_args = "[(Ptr (Named ''fz_document''), ''doc''), (C_int, ''pageno'')]"
      and args = "[PtrV 1, PtrV 16, IntV 7]" and L = sample_fitz
      and ?s1.0 = "[]" and ?e1.0 = "Fz_error 2 ''no document''" and ?t1.0 = "[]"
      and ?s2.0 = "[(16, 3)]" and ?e2.0 = "Fz_error 3 ''invalid page number''" and ?t2.0 = "[(16, 3)]"]
  by (simp add: mupdf_c_def mp_load_page_src_def WRAP_src_eq)

subsection \<open>The operations\<close>

text \<open>
  C3. \<^verbatim>\<open>mupdf_wrapper/mupdf_wrapper.c\<close> defines nine functions, each an instance of the one
  macro, and they are the operations of the spec's table, row by row: the function of a
  row has the row's kind of result, one invocation of it makes exactly the row's library
  call, on the arguments it was given, it returns what that call returns, and it returns
  the row's sentinel when that call signals failure.
\<close>

theorem operations_table:
  "length mupdf_wrapper_c = 9 \<and>
   list_all2 (\<lambda>f (g, kind, sentinel).
        kind_of (fn_ret_type f) = Some kind \<and>
        (length args = length (fn_params f) \<longrightarrow>
           call_function (logged L) f args (s, log) =
             (case L g args s of
                Fz_return v s' \<Rightarrow> Done v (s', log @ [(g, args)])
              | Fz_throw e s' \<Rightarrow> Done sentinel (s', log @ [(g, args)]))))
      mupdf_wrapper_c spec_operations \<and>
   (\<exists>ds. mupdf_wrapper_c = map WRAP ds)"
proof (intro conjI)
  show "length mupdf_wrapper_c = 9"
    by (simp add: mupdf_wrapper_c_def)
  have row: "length args = length (fn_params f) \<longrightarrow>
           call_function (logged L) f args (s, log) =
             (case L g args s of
                Fz_return v s' \<Rightarrow> Done v (s', log @ [(g, args)])
              | Fz_throw e s' \<Rightarrow> Done c (s', log @ [(g, args)]))"
    if "f \<in> set mupdf_wrapper_c" "underlying_call f = g"
      "spec_sentinel (fn_ret_type f) = Some c"
    for f g c
  proof
    assume ar: "length args = length (fn_params f)"
    have "f \<in> set mupdf_wrapper_c \<union> set mupdf_c" using that(1) by simp
    from instance_call_direct[OF this ar, of "logged L" "(s, log)"] that(2,3)
    show "call_function (logged L) f args (s, log) =
             (case L g args s of
                Fz_return v s' \<Rightarrow> Done v (s', log @ [(g, args)])
              | Fz_throw e s' \<Rightarrow> Done c (s', log @ [(g, args)]))"
      by (cases "L g args s") (auto simp: logged_def)
  qed
  show "list_all2 (\<lambda>f (g, kind, sentinel).
        kind_of (fn_ret_type f) = Some kind \<and>
        (length args = length (fn_params f) \<longrightarrow>
           call_function (logged L) f args (s, log) =
             (case L g args s of
                Fz_return v s' \<Rightarrow> Done v (s', log @ [(g, args)])
              | Fz_throw e s' \<Rightarrow> Done sentinel (s', log @ [(g, args)]))))
      mupdf_wrapper_c spec_operations"
    unfolding spec_operations_def
    apply (subst mupdf_wrapper_c_def)
    apply (simp only: list_all2_Cons list_all2_Nil prod.case simp_thms)
    apply (intro conjI;
        ((rule row, simp add: mupdf_wrapper_c_def, simp add: underlying_call_def instance_defs,
          simp add: instance_defs) | simp add: instance_defs))
    done
  show "\<exists>ds. mupdf_wrapper_c = map WRAP ds"
    unfolding mupdf_wrapper_c_def instance_defs
    by (rule exI, rule sym, (rule list.map(2)[THEN trans] arg_cong2[where f = Cons] refl list.map(1))+)
qed

text \<open>The sixth row of the theorem, counting the pages of a document of three pages.\<close>

theorem operations_table_witness:
  "mupdf_wrapper_c ! 5 = mp_count_pages \<and>
   spec_operations ! 5 = (''fz_count_pages'', Integer, IntV (- 1)) \<and>
   kind_of (fn_ret_type mp_count_pages) = Some Integer \<and>
   call_function (logged sample_fitz) mp_count_pages [PtrV 1, PtrV 16] ([(16, 3)], []) =
     Done (IntV 3) ([(16, 3)], [(''fz_count_pages'', [PtrV 1, PtrV 16])])"
proof -
  have x: "mupdf_wrapper_c ! 5 = mp_count_pages"
    by (simp add: mupdf_wrapper_c_def)
  have y: "spec_operations ! 5 = (''fz_count_pages'', Integer, IntV (- 1))"
    by (simp add: spec_operations_def)
  have n: "5 < length mupdf_wrapper_c"
    by (simp add: mupdf_wrapper_c_def)
  have ar: "length [PtrV 1, PtrV 16] = length (fn_params mp_count_pages)"
    by (simp add: mp_count_pages_def)
  have "list_all2 (\<lambda>f (g, kind, sentinel).
        kind_of (fn_ret_type f) = Some kind \<and>
        (length [PtrV 1, PtrV 16] = length (fn_params f) \<longrightarrow>
           call_function (logged sample_fitz) f [PtrV 1, PtrV 16] ([(16, 3)], []) =
             (case sample_fitz g [PtrV 1, PtrV 16] [(16, 3)] of
                Fz_return v s' \<Rightarrow> Done v (s', [] @ [(g, [PtrV 1, PtrV 16])])
              | Fz_throw e s' \<Rightarrow> Done sentinel (s', [] @ [(g, [PtrV 1, PtrV 16])]))))
      mupdf_wrapper_c spec_operations"
    using operations_table[where L = sample_fitz and args = "[PtrV 1, PtrV 16]"
        and s = "[(16, 3)]" and log = "[]"] by (elim conjE)
  from list_all2_nthD[OF this n] ar x y show ?thesis
    by simp
qed

subsection \<open>Counting pages\<close>

text \<open>
  C5, as amended. \<^verbatim>\<open>mp_count_pages\<close> of either file returns the count the library's
  \<^verbatim>\<open>fz_count_pages\<close> returns whenever that call completes normally on the handle, and
  \<open>-1\<close> whenever that call signals failure. The adapter does not look at the handle: what
  a null or invalid handle gives is what the library does with it.
\<close>

theorem count_pages_result:
  "call_function L mp_count_pages [ctx, doc] s =
     (case L ''fz_count_pages'' [ctx, doc] s of
        Fz_return n s' \<Rightarrow> Done n s'
      | Fz_throw e s' \<Rightarrow> Done (IntV (- 1)) s') \<and>
   call_function L mp_count_pages_src [ctx, doc] s =
     (case L ''fz_count_pages'' [ctx, doc] s of
        Fz_return n s' \<Rightarrow> Done n s'
      | Fz_throw e s' \<Rightarrow> Done (IntV (- 1)) s')"
  by (simp add: mp_count_pages_def mp_count_pages_src_def call_function_def bind_params_def
      split: fz_outcome.splits)

text \<open>The theorem on an open document of three pages.\<close>

theorem count_pages_result_witness:
  "call_function sample_fitz mp_count_pages [PtrV 1, PtrV 16] [(16, 3)] = Done (IntV 3) [(16, 3)] \<and>
   0 \<le> sint (3 :: int32)"
  using count_pages_result[of sample_fitz "PtrV 1" "PtrV 16" "[(16, 3)]"]
  by simp

text \<open>
  C5 as stated fails: on a library that answers 0 pages for a handle it does not know,
  counting the pages of the null handle returns 0, not \<open>-1\<close>.
\<close>

theorem count_pages_null_counterexample:
  "call_function sample_fitz mp_count_pages [PtrV 1, PtrV 0] [(16, 3)] = Done (IntV 0) [(16, 3)] \<and>
   call_function sample_fitz mp_count_pages [PtrV 1, PtrV 0] [(16, 3)] \<noteq> Done (IntV (- 1)) [(16, 3)]"
  by (simp add: mp_count_pages_def call_function_def bind_params_def)

subsection \<open>Signatures\<close>

text \<open>
  C7. Every adapted operation of either file is named \<^verbatim>\<open>mp_\<close> followed by the stem that
  the library call it wraps carries after \<^verbatim>\<open>fz_\<close>; its first parameter is the context
  \<^verbatim>\<open>fz_context *ctx\<close>; the arguments of the library call are its parameters, in the order
  of the call; and its return type is \<^verbatim>\<open>int\<close> or a pointer to a named library type.
\<close>

theorem signature_mirrors:
  assumes "f \<in> set mupdf_wrapper_c \<union> set mupdf_c"
    and "f = WRAP (name, ret_type, failure_val, Call g xs, va_args)"
  shows "fn_name f = ''mp_'' @ name \<and> g = ''fz_'' @ name \<and>
         fn_params f = (Ptr (Named ''fz_context''), ''ctx'') # va_args \<and>
         xs = map snd (fn_params f) \<and>
         fn_ret_type f = ret_type \<and> (ret_type = C_int \<or> (\<exists>t. ret_type = Ptr (Named t)))"
proof -
  note sh = instance_shape[OF assms]
  have "fn_name f = ''mp_'' @ name" "fn_ret_type f = ret_type"
    unfolding assms(2) by simp_all
  with sh show ?thesis by blast
qed

text \<open>The theorem at \<^verbatim>\<open>mp_new_pixmap_from_page\<close>, the adapter with the most parameters.\<close>

theorem signature_mirrors_witness:
  "mp_new_pixmap_from_page \<in> set mupdf_wrapper_c \<union> set mupdf_c \<and>
   fn_name mp_new_pixmap_from_page = ''mp_new_pixmap_from_page'' \<and>
   fn_params mp_new_pixmap_from_page =
     [(Ptr (Named ''fz_context''), ''ctx''), (Ptr (Named ''fz_page''), ''page''),
      (Named ''fz_matrix'', ''mat''), (Ptr (Named ''fz_colorspace''), ''cs''), (C_int, ''alpha'')] \<and>
   [''ctx'', ''page'', ''mat'', ''cs'', ''alpha''] = map snd (fn_params mp_new_pixmap_from_page) \<and>
   fn_ret_type mp_new_pixmap_from_page = Ptr (Named ''fz_pixmap'')"
  using signature_mirrors[where f = mp_new_pixmap_from_page and name = "''new_pixmap_from_page''"
      and ret_type = "Ptr (Named ''fz_pixmap'')" and failure_val = NULL
      and g = "''fz_new_pixmap_from_page''" and xs = "[''ctx'', ''page'', ''mat'', ''cs'', ''alpha'']"
      and va_args = "[(Ptr (Named ''fz_page''), ''page''), (Named ''fz_matrix'', ''mat''),
        (Ptr (Named ''fz_colorspace''), ''cs''), (C_int, ''alpha'')]"]
  by (simp add: mupdf_wrapper_c_def mp_new_pixmap_from_page_def)

subsection \<open>Effects\<close>

text \<open>
  C8. For every adapted operation of either file, whatever the arguments: run on a library
  that logs its calls, one invocation of the adapter adds exactly one entry to the log, the
  library function the adapter stands for with the argument values the adapter was given,
  unchanged and in order; and the state after the invocation is the state that this one
  call leaves.
\<close>

theorem forwarding_and_frame:
  assumes "f \<in> set mupdf_wrapper_c \<union> set mupdf_c"
    and "length args = length (fn_params f)"
  shows "(\<exists>r. call_function (logged L) f args (s, log) =
               Done r (fz_state (L (underlying_call f) args s), log @ [(underlying_call f, args)])) \<and>
         (\<exists>r. call_function L f args s = Done r (fz_state (L (underlying_call f) args s)))"
proof (intro conjI)
  show "\<exists>r. call_function (logged L) f args (s, log) =
               Done r (fz_state (L (underlying_call f) args s), log @ [(underlying_call f, args)])"
    using instance_call_direct[OF assms, of "logged L" "(s, log)"]
    by (cases "L (underlying_call f) args s") (auto simp: logged_def)
  show "\<exists>r. call_function L f args s = Done r (fz_state (L (underlying_call f) args s))"
    using instance_call_direct[OF assms, of L s]
    by (cases "L (underlying_call f) args s") auto
qed

text \<open>
  The theorem at \<^verbatim>\<open>mp_load_page\<close> of \<^verbatim>\<open>src/wrapper/mupdf.c\<close>, on the third page of a
  document of three pages, and at \<^verbatim>\<open>mp_count_pages\<close> of
  \<^verbatim>\<open>mupdf_wrapper/mupdf_wrapper.c\<close>, on the null handle, which is forwarded like any other.
\<close>

theorem forwarding_and_frame_witness:
  "underlying_call mp_load_page_src = ''fz_load_page'' \<and>
   call_function (logged sample_fitz) mp_load_page_src [PtrV 1, PtrV 16, IntV 2] ([(16, 3)], []) =
     Done (PtrV 19) ([(16, 3)], [(''fz_load_page'', [PtrV 1, PtrV 16, IntV 2])]) \<and>
   call_function sample_fitz mp_load_page_src [PtrV 1, PtrV 16, IntV 2] [(16, 3)] =
     Done (PtrV 19) [(16, 3)] \<and>
   underlying_call mp_count_pages = ''fz_count_pages'' \<and>
   call_function (logged sample_fitz) mp_count_pages [PtrV 1, PtrV 0] ([(16, 3)], []) =
     Done (IntV 0) ([(16, 3)], [(''fz_count_pages'', [PtrV 1, PtrV 0])])"
proof -
  have a: "mp_load_page_src \<in> set mupdf_wrapper_c \<union> set mupdf_c"
    by (simp add: mupdf_c_def)
  have b: "length [PtrV 1, PtrV 16, IntV 2] = length (fn_params mp_load_page_src)"
    by (simp add: mp_load_page_src_def)
  have u: "underlying_call mp_load_page_src = ''fz_load_page''"
    by (simp add: underlying_call_def mp_load_page_src_def)
  have a': "mp_count_pages \<in> set mupdf_wrapper_c \<union> set mupdf_c"
    by (simp add: mupdf_wrapper_c_def)
  have b': "length [PtrV 1, PtrV 0] = length (fn_params mp_count_pages)"
    by (simp add: mp_count_pages_def)
  have u': "underlying_call mp_count_pages = ''fz_count_pages''"
    by (simp add: underlying_call_def mp_count_pages_def)
  have 1: "call_function (logged sample_fitz) mp_load_page_src [PtrV 1, PtrV 16, IntV 2] ([(16, 3)], []) =
     Done (PtrV 19) ([(16, 3)], [(''fz_load_page'', [PtrV 1, PtrV 16, IntV 2])])"
    by (simp add: mp_load_page_src_def call_function_def bind_params_def logged_def)
  have 2: "call_function sample_fitz mp_load_page_src [PtrV 1, PtrV 16, IntV 2] [(16, 3)] =
     Done (PtrV 19) [(16, 3)]"
    by (simp add: mp_load_page_src_def call_function_def bind_params_def)
  have 3: "call_function (logged sample_fitz) mp_count_pages [PtrV 1, PtrV 0] ([(16, 3)], []) =
     Done (IntV 0) ([(16, 3)], [(''fz_count_pages'', [PtrV 1, PtrV 0])])"
    by (simp add: mp_count_pages_def call_function_def bind_params_def logged_def)
  from forwarding_and_frame[where L = sample_fitz and s = "[(16, 3)]" and log = "[]", OF a b]
    forwarding_and_frame[where L = sample_fitz and s = "[(16, 3)]" and log = "[]", OF a' b']
    u u' 1 2 3
  show ?thesis by simp
qed

text \<open>
  C9. For every adapted operation: when the underlying call gives the same result in the
  state the first invocation leaves as it gave in the state before, a second invocation of
  the adapter with the same arguments returns the value the first returned.
\<close>

theorem repeatable:
  assumes "f \<in> set mupdf_wrapper_c \<union> set mupdf_c"
    and "f = WRAP (name, ret_type, failure_val, Call g xs, va_args)"
    and "length args = length (fn_params f)"
    and "fz_result (L g args (fz_state (L g args s))) = fz_result (L g args s)"
  shows "\<exists>r t. call_function L f args s = Done r (fz_state (L g args s)) \<and>
               call_function L f args (fz_state (L g args s)) = Done r t"
  using instance_call[OF assms(1-3), of L s]
    instance_call[OF assms(1-3), of L "fz_state (L g args s)"] assms(4)
  by (cases "L g args s"; cases "L g args (fz_state (L g args s))") auto

text \<open>
  The theorem at \<^verbatim>\<open>mp_count_pages\<close> of \<^verbatim>\<open>src/wrapper/mupdf.c\<close>: counting pages leaves the
  sample library's state as it was, and a second count gives 3 again.
\<close>

theorem repeatable_witness:
  "mp_count_pages_src \<in> set mupdf_wrapper_c \<union> set mupdf_c \<and>
   fz_result (sample_fitz ''fz_count_pages'' [PtrV 1, PtrV 16]
      (fz_state (sample_fitz ''fz_count_pages'' [PtrV 1, PtrV 16] [(16, 3)]))) =
     fz_result (sample_fitz ''fz_count_pages'' [PtrV 1, PtrV 16] [(16, 3)]) \<and>
   call_function sample_fitz mp_count_pages_src [PtrV 1, PtrV 16] [(16, 3)] = Done (IntV 3) [(16, 3)]"
  using repeatable[where f = mp_count_pages_src and name = "''count_pages''" and ret_type = C_int
      and failure_val = "Num (- 1)" and g = "''fz_count_pages''" and xs = "[''ctx'', ''doc'']"
      and va_args = "[(Ptr (Named ''fz_document''), ''doc'')]" and args = "[PtrV 1, PtrV 16]"
      and L = sample_fitz and s = "[(16, 3)]"]
  by (simp add: mupdf_c_def mp_count_pages_src_def WRAP_src_eq call_function_def bind_params_def)

subsection \<open>The local \<^verbatim>\<open>ret\<close>\<close>

text \<open>
  C10. The body of every adapted operation of either file is the declaration of
  \<^verbatim>\<open>ret\<close>, the guarded region and \<^verbatim>\<open>return ret;\<close>, its only \<^verbatim>\<open>return\<close>. After the
  declaration \<^verbatim>\<open>ret\<close> is uninitialized. Then either the guarded statement completes and
  has assigned \<^verbatim>\<open>ret\<close>, or it raises and the catch statement assigns \<^verbatim>\<open>ret\<close>; in both
  cases the call returns the value \<^verbatim>\<open>ret\<close> holds, and that value is of the declared
  return type, given that the library call returns a value of that type. (A library call
  that does not return is outside the model: the library is a total function here.)
\<close>

theorem ret_always_assigned:
  assumes "f \<in> set mupdf_wrapper_c \<union> set mupdf_c"
    and "length args = length (fn_params f)"
    and "\<forall>v s'. L (underlying_call f) args s = Fz_return v s' \<longrightarrow> of_type v (fn_ret_type f)"
  shows "\<exists>d b h \<sigma>1.
     fn_body f = Seq d (Seq (Fz_try b h) (Return (Var ''ret''))) \<and>
     count_returns (fn_body f) = 1 \<and>
     exec L d (bind_params (fn_params f) args) s = Next \<sigma>1 s \<and>
     \<sigma>1 ''ret'' = Some Uninit \<and>
     (case exec L b \<sigma>1 s of
        Next \<sigma>2 s' \<Rightarrow>
          \<exists>v. \<sigma>2 ''ret'' = Some (Init v) \<and> of_type v (fn_ret_type f) \<and>
              call_function L f args s = Done v s'
      | Throws e \<sigma>2 s' \<Rightarrow>
          \<exists>\<sigma>3 v. exec L h \<sigma>2 s' = Next \<sigma>3 s' \<and> \<sigma>3 ''ret'' = Some (Init v) \<and>
                 of_type v (fn_ret_type f) \<and> call_function L f args s = Done v s'
      | Returns v s' \<Rightarrow> False
      | Stuck c \<Rightarrow> False)"
proof -
  from instance_expands[OF assms(1)] obtain name ret_type failure_val g xs va_args
    where f: "f = WRAP (name, ret_type, failure_val, Call g xs, va_args)" by blast
  let ?ps = "fn_params f"
  let ?\<sigma>0 = "bind_params ?ps args"
  let ?\<sigma>1 = "?\<sigma>0(''ret'' \<mapsto> Uninit)"
  note sh = instance_shape[OF assms(1) f]
  have xs: "xs = map snd ?ps" using sh by (rule conjunct1)
  have d: "distinct (map snd ?ps)" using sh xs by blast
  have "''ret'' \<notin> set (map snd ?ps)" using sh xs by blast
  then have r: "''ret'' \<notin> snd ` set ?ps" by simp
  have fv: "failure_val = NULL \<and> (\<exists>t. ret_type = Ptr (Named t)) \<or>
          failure_val = Num (- 1) \<and> ret_type = C_int" using sh by blast
  have g: "g = ''fz_'' @ name" using sh by blast
  have rt: "fn_ret_type f = ret_type" and nm: "fn_name f = ''mp_'' @ name"
    unfolding f by simp_all
  have u: "underlying_call f = g" using g nm by (simp add: underlying_call_def)
  have none: "?\<sigma>0 ''ret'' = None" using d r assms(2) by (rule wrap_paths(1))
  have guarded: "exec L (Assign ''ret'' (Call g xs)) ?\<sigma>1 s =
      (case L g args s of
         Fz_return v s' \<Rightarrow> Next (?\<sigma>0(''ret'' \<mapsto> Init v)) s'
       | Fz_throw e s' \<Rightarrow> Throws e ?\<sigma>1 s')"
    unfolding xs using d r assms(2) by (rule wrap_paths(2))
  from instance_call[OF assms(1) f assms(2), of L s] obtain c where
    c: "spec_sentinel ret_type = Some c"
    and call: "call_function L f args s =
      (case L g args s of Fz_return v s' \<Rightarrow> Done v s' | Fz_throw e s' \<Rightarrow> Done c s')"
    by blast
  have handler: "exec L (Assign ''ret'' failure_val) ?\<sigma>1 t = Next (?\<sigma>1(''ret'' \<mapsto> Init c)) t"
    and ct: "of_type c ret_type" for t
    using fv c by auto
  have body: "fn_body f = Seq (Decl ret_type ''ret'')
      (Seq (Fz_try (Assign ''ret'' (Call g xs)) (Assign ''ret'' failure_val)) (Return (Var ''ret'')))"
    unfolding f by simp
  have cnt: "count_returns (fn_body f) = 1"
    unfolding body by simp
  have decl: "exec L (Decl ret_type ''ret'') ?\<sigma>0 s = Next ?\<sigma>1 s"
    using none by simp
  have paths: "(case exec L (Assign ''ret'' (Call g xs)) ?\<sigma>1 s of
        Next \<sigma>2 s' \<Rightarrow>
          \<exists>v. \<sigma>2 ''ret'' = Some (Init v) \<and> of_type v (fn_ret_type f) \<and>
              call_function L f args s = Done v s'
      | Throws e \<sigma>2 s' \<Rightarrow>
          \<exists>\<sigma>3 v. exec L (Assign ''ret'' failure_val) \<sigma>2 s' = Next \<sigma>3 s' \<and>
                 \<sigma>3 ''ret'' = Some (Init v) \<and>
                 of_type v (fn_ret_type f) \<and> call_function L f args s = Done v s'
      | Returns v s' \<Rightarrow> False
      | Stuck c \<Rightarrow> False)"
  proof (cases "L g args s")
    case (Fz_return v s')
    then have "of_type v (fn_ret_type f)" using assms(3) u by simp
    with Fz_return show ?thesis unfolding guarded call by simp
  next
    case (Fz_throw e s')
    then show ?thesis unfolding guarded call using handler[of s'] ct rt by simp
  qed
  from body cnt decl paths show ?thesis
    by (intro exI[of _ "Decl ret_type ''ret''"] exI[of _ "Assign ''ret'' (Call g xs)"]
        exI[of _ "Assign ''ret'' failure_val"] exI[of _ ?\<sigma>1]) simp
qed

text \<open>
  The theorem at \<^verbatim>\<open>mp_count_pages\<close> of \<^verbatim>\<open>src/wrapper/mupdf.c\<close>, where the library returns,
  and at \<^verbatim>\<open>mp_load_page\<close> of \<^verbatim>\<open>mupdf_wrapper/mupdf_wrapper.c\<close>, where it signals an error.
\<close>

theorem ret_always_assigned_witness:
  "count_returns (fn_body mp_count_pages_src) = 1 \<and>
   of_type (IntV 3) (fn_ret_type mp_count_pages_src) \<and>
   call_function sample_fitz mp_count_pages_src [PtrV 1, PtrV 16] [(16, 3)] = Done (IntV 3) [(16, 3)] \<and>
   count_returns (fn_body mp_load_page) = 1 \<and>
   of_type (PtrV 0) (fn_ret_type mp_load_page) \<and>
   call_function sample_fitz mp_load_page [PtrV 1, PtrV 16, IntV 7] [(16, 3)] = Done (PtrV 0) [(16, 3)]"
proof -
  have a: "mp_count_pages_src \<in> set mupdf_wrapper_c \<union> set mupdf_c"
    by (simp add: mupdf_c_def)
  have b: "length [PtrV 1, PtrV 16] = length (fn_params mp_count_pages_src)"
    by (simp add: mp_count_pages_src_def)
  have c: "\<forall>v s'. sample_fitz (underlying_call mp_count_pages_src) [PtrV 1, PtrV 16] [(16, 3)] =
             Fz_return v s' \<longrightarrow> of_type v (fn_ret_type mp_count_pages_src)"
    by (simp add: underlying_call_def mp_count_pages_src_def)
  have a': "mp_load_page \<in> set mupdf_wrapper_c \<union> set mupdf_c"
    by (simp add: mupdf_wrapper_c_def)
  have b': "length [PtrV 1, PtrV 16, IntV 7] = length (fn_params mp_load_page)"
    by (simp add: mp_load_page_def)
  have c': "\<forall>v s'. sample_fitz (underlying_call mp_load_page) [PtrV 1, PtrV 16, IntV 7] [(16, 3)] =
             Fz_return v s' \<longrightarrow> of_type v (fn_ret_type mp_load_page)"
    by (simp add: underlying_call_def mp_load_page_def)
  have 1: "count_returns (fn_body mp_count_pages_src) = 1"
    using ret_always_assigned[where L = sample_fitz and s = "[(16, 3)]", OF a b c] by blast
  have 2: "count_returns (fn_body mp_load_page) = 1"
    using ret_always_assigned[where L = sample_fitz and s = "[(16, 3)]", OF a' b' c'] by blast
  have 3: "of_type (IntV 3) (fn_ret_type mp_count_pages_src)"
    "call_function sample_fitz mp_count_pages_src [PtrV 1, PtrV 16] [(16, 3)] = Done (IntV 3) [(16, 3)]"
    by (simp_all add: mp_count_pages_src_def call_function_def bind_params_def)
  have 4: "of_type (PtrV 0) (fn_ret_type mp_load_page)"
    "call_function sample_fitz mp_load_page [PtrV 1, PtrV 16, IntV 7] [(16, 3)] = Done (PtrV 0) [(16, 3)]"
    by (simp_all add: mp_load_page_def call_function_def bind_params_def)
  from 1 2 3 4 show ?thesis by simp
qed

subsection \<open>The two files\<close>

text \<open>
  C6. The macro of \<^verbatim>\<open>src/wrapper/mupdf.c\<close> is the macro of
  \<^verbatim>\<open>mupdf_wrapper/mupdf_wrapper.c\<close>; the four functions of \<^verbatim>\<open>src/wrapper/mupdf.c\<close> are
  functions of \<^verbatim>\<open>mupdf_wrapper/mupdf_wrapper.c\<close>; and two functions of the two files with
  the same name are the same function definition (return type, parameters and body), so
  they behave the same on every library, argument list and state.
\<close>

theorem duplicates:
  "WRAP_src = WRAP \<and> set mupdf_c \<subseteq> set mupdf_wrapper_c \<and>
   map fn_name mupdf_c =
     [''mp_open_document'', ''mp_count_pages'', ''mp_load_outline'', ''mp_load_page''] \<and>
   (\<forall>f1 \<in> set mupdf_wrapper_c. \<forall>f2 \<in> set mupdf_c.
      fn_name f1 = fn_name f2 \<longrightarrow>
        f1 = f2 \<and> call_function L f1 args s = call_function L f2 args s)"
proof (intro conjI)
  show "WRAP_src = WRAP" by (rule ext) (rule WRAP_src_eq)
  show "set mupdf_c \<subseteq> set mupdf_wrapper_c"
    by (simp add: mupdf_c_def mupdf_wrapper_c_def instance_defs WRAP_src_eq del: WRAP.simps)
  show "map fn_name mupdf_c =
     [''mp_open_document'', ''mp_count_pages'', ''mp_load_outline'', ''mp_load_page'']"
    by (simp add: mupdf_c_def instance_defs)
  have "\<forall>f1 \<in> set mupdf_wrapper_c. \<forall>f2 \<in> set mupdf_c. fn_name f1 = fn_name f2 \<longrightarrow> f1 = f2"
    by (simp add: mupdf_c_def mupdf_wrapper_c_def instance_defs)
  then show "\<forall>f1 \<in> set mupdf_wrapper_c. \<forall>f2 \<in> set mupdf_c.
      fn_name f1 = fn_name f2 \<longrightarrow>
        f1 = f2 \<and> call_function L f1 args s = call_function L f2 args s"
    by blast
qed

text \<open>The theorem at the two definitions of \<^verbatim>\<open>mp_load_page\<close>.\<close>

theorem duplicates_witness:
  "mp_load_page \<in> set mupdf_wrapper_c \<and> mp_load_page_src \<in> set mupdf_c \<and>
   fn_name mp_load_page = fn_name mp_load_page_src \<and>
   mp_load_page = mp_load_page_src \<and>
   call_function sample_fitz mp_load_page [PtrV 1, PtrV 16, IntV 2] [(16, 3)] =
     call_function sample_fitz mp_load_page_src [PtrV 1, PtrV 16, IntV 2] [(16, 3)]"
proof -
  have a: "mp_load_page \<in> set mupdf_wrapper_c" by (simp add: mupdf_wrapper_c_def)
  have b: "mp_load_page_src \<in> set mupdf_c" by (simp add: mupdf_c_def)
  have c: "fn_name mp_load_page = fn_name mp_load_page_src"
    by (simp add: mp_load_page_def mp_load_page_src_def)
  have "\<forall>f1 \<in> set mupdf_wrapper_c. \<forall>f2 \<in> set mupdf_c.
      fn_name f1 = fn_name f2 \<longrightarrow>
        f1 = f2 \<and> call_function sample_fitz f1 [PtrV 1, PtrV 16, IntV 2] [(16, 3)] =
          call_function sample_fitz f2 [PtrV 1, PtrV 16, IntV 2] [(16, 3)]"
    using duplicates[of sample_fitz "[PtrV 1, PtrV 16, IntV 2]" "[(16, 3)]"] by (elim conjE)
  with a b c show ?thesis by blast
qed

end
